theory Spec2Isabelle
  imports Complex_Main "HOL-Library.Product_Lexorder"
begin

section \<open>The logo resizer (scripts/img_resizer.py)\<close>

text \<open>
  The script reads one source image and writes seven sized PNG variants, \<open>favicon.ico\<close>
  and \<open>og-image.png\<close> into an output directory. The embedding follows the script line by
  line. What the script does itself (the argument handling, the order of the file system
  operations, the table of sizes, the self-overwrite guard, the centring arithmetic) is
  translated from \<open>resize_logo\<close> and \<open>main\<close>. What the script delegates to \<open>pathlib\<close>
  and to the Pillow imaging library is modelled after the documented behaviour of those
  libraries, each definition saying so; the parts of them that cannot be written down as
  plain functions (symbolic link resolution, image decoding, the resampling filter) are
  fields of a \<open>platform\<close> record, and every theorem holds for every platform.
  The import guard of lines 27 to 31 (exit code 1 when Pillow is not installed) runs before
  anything else and is left out: the model is of an interpreter that has Pillow.
\<close>

subsection \<open>Images\<close>

datatype mode = RGBA | RGB | OtherMode string

type_synonym pixel = "nat \<times> nat \<times> nat \<times> nat"

text \<open>
  A decoded image (\<open>PIL.Image.Image\<close>): its mode, its size and its pixel data, read at
  column \<open>i\<close> and row \<open>j\<close>. A pixel is (red, green, blue, alpha); an \<open>RGB\<close> image
  has no alpha band and carries 255 in that place.
\<close>

record image =
  mode :: mode
  width :: nat
  height :: nat
  px :: "nat \<Rightarrow> nat \<Rightarrow> pixel"

subsection \<open>Paths, files and the process state\<close>

text \<open>A \<open>pathlib.Path\<close> is its tuple of parts; an absolute path starts with the part \<open>/\<close>.\<close>

type_synonym path = "string list"

datatype content = PNG image | ICO "image list" | Blob string

datatype node = Dir | File content

text \<open>The file system maps a resolved path to what is stored there.\<close>

type_synonym fs = "path \<Rightarrow> node option"

datatype py_error =
    FileExistsError | FileNotFoundError | NotADirectoryError | IsADirectoryError
  | UnidentifiedImageError | ZeroDivisionError | IndexError

text \<open>Why a run stopped early: \<open>sys.exit(n)\<close>, or an exception nobody catches.\<close>

datatype abort = SysExit nat | Raised py_error

text \<open>
  The state a run threads through: the file system, the lines printed so far, and the
  trace of the file writes made so far, in order: the resolved path and what was put there.
\<close>

record state =
  files :: fs
  stdout :: "string list"
  written :: "(path \<times> content) list"

text \<open>
  The environment the script runs in.
  \<^item> \<open>resolve\<close> is \<open>Path.resolve()\<close>: the absolute path with the working directory
    prepended and symbolic links followed. The file system is keyed by resolved paths.
    Creating a regular file or a directory does not change what a path resolves to, so
    \<open>resolve\<close> is fixed during a run.
  \<^item> \<open>decode\<close> is the image Pillow reads from the bytes of a file; \<open>None\<close> when it
    cannot identify an image in them.
  \<^item> \<open>to_rgba\<close> is the pixel data of \<open>img.convert("RGBA")\<close>.
  \<^item> \<open>lanczos\<close> is the pixel data of \<open>resize(size, LANCZOS)\<close>.
\<close>

record platform =
  resolve :: "path \<Rightarrow> path"
  decode :: "content \<Rightarrow> image option"
  to_rgba :: "image \<Rightarrow> nat \<Rightarrow> nat \<Rightarrow> pixel"
  lanczos :: "image \<Rightarrow> nat \<times> nat \<Rightarrow> nat \<Rightarrow> nat \<Rightarrow> pixel"

definition print :: "string \<Rightarrow> state \<Rightarrow> state" where
  "print line s = s\<lparr>stdout := stdout s @ [line]\<rparr>"


subsection \<open>pathlib\<close>

fun split_on :: "char \<Rightarrow> string \<Rightarrow> string list" where
  "split_on c [] = [[]]"
| "split_on c (x # xs) =
     (if x = c then [] # split_on c xs
      else (case split_on c xs of [] \<Rightarrow> [[x]] | w # ws \<Rightarrow> (x # w) # ws))"

text \<open>
  \<open>Path(s)\<close> on a POSIX system: the string is cut at the slashes, empty parts and
  \<open>.\<close> parts are dropped, \<open>..\<close> parts are kept, and a leading slash becomes the root
  part.
\<close>

definition Path :: "string \<Rightarrow> path" where
  "Path s = (if s \<noteq> [] \<and> hd s = CHR ''/'' then [''/''] else [])
            @ filter (\<lambda>p. p \<noteq> [] \<and> p \<noteq> ''.'') (split_on (CHR ''/'') s)"

definition is_absolute :: "path \<Rightarrow> bool" where
  "is_absolute p = (p \<noteq> [] \<and> hd p = ''/'')"

text \<open>\<open>p / name\<close>: an absolute right operand replaces the left one.\<close>

definition joinpath :: "path \<Rightarrow> string \<Rightarrow> path" where
  "joinpath p name = (if is_absolute (Path name) then Path name else p @ Path name)"

fun intercalate :: "string \<Rightarrow> string list \<Rightarrow> string" where
  "intercalate sep [] = []"
| "intercalate sep [x] = x"
| "intercalate sep (x # y # ys) = x @ sep @ intercalate sep (y # ys)"

text \<open>\<open>str(p)\<close>, as the f-strings print a path.\<close>

definition str_path :: "path \<Rightarrow> string" where
  "str_path p = (if p = [] then ''.''
                 else if is_absolute p then ''/'' @ intercalate ''/'' (tl p)
                 else intercalate ''/'' p)"

text \<open>\<open>source.exists()\<close>.\<close>

definition exists :: "platform \<Rightarrow> fs \<Rightarrow> path \<Rightarrow> bool" where
  "exists pf f p = (case f (resolve pf p) of None \<Rightarrow> False | Some n \<Rightarrow> True)"

text \<open>
  \<open>mkdir(parents=True, exist_ok=True)\<close> on a resolved path: an existing directory is
  left alone, an existing file in its place raises, a missing parent is created first.
  A failure creates nothing, since the operating system refuses the innermost
  \<open>mkdir\<close> before any directory is made.
\<close>

function mkdir_parents :: "fs \<Rightarrow> path \<Rightarrow> py_error + fs" where
  "mkdir_parents f p =
     (case f p of
        Some Dir \<Rightarrow> Inr f
      | Some (File c) \<Rightarrow> Inl FileExistsError
      | None \<Rightarrow>
          (if p = [] then Inl FileNotFoundError
           else (case f (butlast p) of
                   Some Dir \<Rightarrow> Inr (f(p \<mapsto> Dir))
                 | Some (File c) \<Rightarrow> Inl NotADirectoryError
                 | None \<Rightarrow>
                     (case mkdir_parents f (butlast p) of
                        Inl e \<Rightarrow> Inl e
                      | Inr f' \<Rightarrow> Inr (f'(p \<mapsto> Dir))))))"
  by pat_completeness auto
termination
  by (relation "measure (\<lambda>(f, p). length p)") auto

declare mkdir_parents.simps [simp del]

text \<open>
  Writing the encoded bytes of a file (the end of \<open>Image.save\<close>): opening a directory
  for writing raises; anything else at that path is replaced. The other ways the operating
  system can refuse a write (permissions, a full disk) are not part of the model.
\<close>

definition write_file :: "platform \<Rightarrow> path \<Rightarrow> content \<Rightarrow> state \<Rightarrow> py_error + state" where
  "write_file pf p c s =
     (case files s (resolve pf p) of
        Some Dir \<Rightarrow> Inl IsADirectoryError
      | _ \<Rightarrow> Inr (s\<lparr>files := (files s)(resolve pf p \<mapsto> File c),
                     written := written s @ [(resolve pf p, c)]\<rparr>))"

subsection \<open>Pillow\<close>

text \<open>\<open>Image.open(source)\<close> followed by the loading of the pixel data, which the script
  triggers (by \<open>convert\<close> or by the first \<open>copy\<close>) before it writes any file.\<close>

definition Image_open :: "platform \<Rightarrow> fs \<Rightarrow> path \<Rightarrow> py_error + image" where
  "Image_open pf f p =
     (case f (resolve pf p) of
        None \<Rightarrow> Inl FileNotFoundError
      | Some Dir \<Rightarrow> Inl IsADirectoryError
      | Some (File c) \<Rightarrow>
          (case decode pf c of None \<Rightarrow> Inl UnidentifiedImageError | Some im \<Rightarrow> Inr im))"

text \<open>\<open>Image.new(mode, size, color)\<close>.\<close>

definition Image_new :: "mode \<Rightarrow> nat \<times> nat \<Rightarrow> pixel \<Rightarrow> image" where
  "Image_new m sz color =
     \<lparr>mode = m, width = fst sz, height = snd sz, px = (\<lambda>i j. color)\<rparr>"

text \<open>\<open>img.convert("RGBA")\<close> keeps the size; \<open>convert("RGB")\<close> of an \<open>RGBA\<close> image
  drops the alpha band and keeps the three colour bands as they are.\<close>

definition convert_RGBA :: "platform \<Rightarrow> image \<Rightarrow> image" where
  "convert_RGBA pf im = im\<lparr>mode := RGBA, px := to_rgba pf im\<rparr>"

definition convert_RGB :: "image \<Rightarrow> image" where
  "convert_RGB im =
     im\<lparr>mode := RGB, px := (\<lambda>i j. case px im i j of (r, g, b, a) \<Rightarrow> (r, g, b, 255))\<rparr>"

text \<open>
  The size rule of \<open>Image.thumbnail\<close> (Pillow 9.1 and later, which the script needs for
  \<open>Image.Resampling\<close>):
  \<^verbatim>\<open>
  def round_aspect(number, key):
      return max(min(math.floor(number), math.ceil(number), key=key), 1)
  x, y = provided_size
  if x >= self.width and y >= self.height:
      return None
  aspect = self.width / self.height
  if x / y >= aspect:
      x = round_aspect(y * aspect, key=lambda n: abs(aspect - n / y))
  else:
      y = round_aspect(x / aspect, key=lambda n: 0 if n == 0 else abs(aspect - x / n))
  return x, y
  \<close>
  Pillow computes with floating-point numbers; the model computes with exact rationals.
  Python's \<open>min\<close> returns the first of two arguments with equal keys.
\<close>

definition round_aspect :: "rat \<Rightarrow> (int \<Rightarrow> rat) \<Rightarrow> nat" where
  "round_aspect number key =
     nat (max (if key \<lfloor>number\<rfloor> \<le> key \<lceil>number\<rceil> then \<lfloor>number\<rfloor> else \<lceil>number\<rceil>) 1)"

definition preserve_aspect_ratio :: "image \<Rightarrow> nat \<times> nat \<Rightarrow> py_error + (nat \<times> nat) option" where
  "preserve_aspect_ratio im provided_size =
     (case provided_size of (x, y) \<Rightarrow>
        if x \<ge> width im \<and> y \<ge> height im then Inr None
        else if height im = 0 then Inl ZeroDivisionError
        else
          (let aspect = (of_nat (width im) :: rat) / of_nat (height im) in
           if y = 0 then Inl ZeroDivisionError
           else if of_nat x / of_nat y \<ge> aspect
           then Inr (Some (round_aspect (of_nat y * aspect)
                             (\<lambda>n. \<bar>aspect - of_int n / of_nat y\<bar>), y))
           else Inr (Some (x, round_aspect (of_nat x / aspect)
                             (\<lambda>n. if n = 0 then 0 else \<bar>aspect - of_nat x / of_int n\<bar>)))))"

definition resize :: "platform \<Rightarrow> image \<Rightarrow> nat \<times> nat \<Rightarrow> image" where
  "resize pf im sz = im\<lparr>width := fst sz, height := snd sz, px := lanczos pf im sz\<rparr>"

text \<open>\<open>im.thumbnail(size, Image.Resampling.LANCZOS)\<close>. Python changes \<open>im\<close> in place;
  the model returns the changed image. The script calls it on a fresh \<open>img.copy()\<close>, so
  \<open>img\<close> itself never changes.\<close>

definition thumbnail :: "platform \<Rightarrow> image \<Rightarrow> nat \<times> nat \<Rightarrow> py_error + image" where
  "thumbnail pf im sz =
     (case preserve_aspect_ratio im sz of
        Inl e \<Rightarrow> Inl e
      | Inr None \<Rightarrow> Inr im
      | Inr (Some final_size) \<Rightarrow>
          if (width im, height im) \<noteq> final_size then Inr (resize pf im final_size)
          else Inr im)"

text \<open>Whether pixel \<open>(i, j)\<close> of the canvas lies under an image pasted at \<open>(x, y)\<close>.\<close>

definition covered :: "image \<Rightarrow> int \<times> int \<Rightarrow> nat \<Rightarrow> nat \<Rightarrow> bool" where
  "covered im box i j =
     (fst box \<le> int i \<and> int i < fst box + int (width im) \<and>
      snd box \<le> int j \<and> int j < snd box + int (height im))"

text \<open>\<open>canvas.paste(im, (x, y))\<close>: the pixels of \<open>im\<close> replace those of the canvas
  under it, alpha included; the canvas keeps its size and what sticks out is cut off.\<close>

definition paste :: "image \<Rightarrow> image \<Rightarrow> int \<times> int \<Rightarrow> image" where
  "paste canvas im box =
     canvas\<lparr>px := (\<lambda>i j. if covered im box i j
                          then px im (nat (int i - fst box)) (nat (int j - snd box))
                          else px canvas i j)\<rparr>"

text \<open>Pillow's 8-bit blend: \<open>in1\<close> where the mask is 0, \<open>in2\<close> where it is 255.\<close>

definition blend8 :: "nat \<Rightarrow> nat \<Rightarrow> nat \<Rightarrow> nat" where
  "blend8 m in1 in2 =
     (let tmp = in1 * (255 - m) + in2 * m + 128 in (tmp div 256 + tmp) div 256)"

text \<open>\<open>canvas.paste(im, (x, y), mask)\<close> with an \<open>RGBA\<close> mask: under the image every band
  of the canvas is blended with the band of \<open>im\<close>, weighted by the alpha of the mask.\<close>

definition paste_mask :: "image \<Rightarrow> image \<Rightarrow> int \<times> int \<Rightarrow> image \<Rightarrow> image" where
  "paste_mask canvas im box msk =
     canvas\<lparr>px := (\<lambda>i j.
        if covered im box i j
        then (case (px canvas i j,
                    px im (nat (int i - fst box)) (nat (int j - snd box)),
                    px msk (nat (int i - fst box)) (nat (int j - snd box))) of
                ((r0, g0, b0, a0), (r, g, b, a), (mr, mg, mb, m)) \<Rightarrow>
                  (blend8 m r0 r, blend8 m g0 g, blend8 m b0 b, blend8 m a0 a))
        else px canvas i j)\<rparr>"

text \<open>\<open>canvas.save(path, "PNG", optimize=True)\<close>: the PNG encoding is lossless.\<close>

definition save_png :: "platform \<Rightarrow> image \<Rightarrow> path \<Rightarrow> state \<Rightarrow> py_error + state" where
  "save_png pf im p s = write_file pf p (PNG im) s"

text \<open>
  The frames Pillow's ICO writer puts into the file for
  \<open>im.save(path, format="ICO", sizes=sizes, append_images=more)\<close>. Pillow's
  documentation of the format: a requested size bigger than the image being saved, or
  bigger than 256, is ignored; an appended image is used for the requested size that it has
  exactly, in place of a scaled-down copy of the image being saved. The requested sizes are
  visited as \<open>sorted(set(sizes))\<close>.
\<close>

fun ico_frame :: "platform \<Rightarrow> image \<Rightarrow> image list \<Rightarrow> nat \<times> nat \<Rightarrow> py_error + image" where
  "ico_frame pf im [] sz = thumbnail pf im sz"
| "ico_frame pf im (provided_im # rest) sz =
     (if (width provided_im, height provided_im) = sz then Inr provided_im
      else ico_frame pf im rest sz)"

fun ico_frames :: "platform \<Rightarrow> image \<Rightarrow> image list \<Rightarrow> (nat \<times> nat) list \<Rightarrow> py_error + image list" where
  "ico_frames pf im provided_ims [] = Inr []"
| "ico_frames pf im provided_ims (sz # szs) =
     (if fst sz > width im \<or> snd sz > height im \<or> fst sz > 256 \<or> snd sz > 256
      then ico_frames pf im provided_ims szs
      else (case ico_frame pf im provided_ims sz of
              Inl e \<Rightarrow> Inl e
            | Inr frame \<Rightarrow>
                (case ico_frames pf im provided_ims szs of
                   Inl e \<Rightarrow> Inl e
                 | Inr frames \<Rightarrow> Inr (frame # frames))))"

definition save_ico ::
  "platform \<Rightarrow> image \<Rightarrow> path \<Rightarrow> (nat \<times> nat) list \<Rightarrow> image list \<Rightarrow> state \<Rightarrow> py_error + state" where
  "save_ico pf im p szs append_images s =
     (case ico_frames pf im (im # append_images) (sort (remdups szs)) of
        Inl e \<Rightarrow> Inl e
      | Inr frames \<Rightarrow> write_file pf p (ICO frames) s)"

subsection \<open>The script\<close>

function str_nat :: "nat \<Rightarrow> string" where
  "str_nat n =
     (if n < 10 then [char_of (48 + n)] else str_nat (n div 10) @ [char_of (48 + n mod 10)])"
  by pat_completeness auto
termination
  by (relation "measure id") auto

declare str_nat.simps [simp del]

text \<open>The dictionary \<open>sizes\<close>; Python iterates it in the order it is written.\<close>

definition sizes :: "(string \<times> nat \<times> nat) list" where
  "sizes =
     [(''favicon-16x16.png'', (16, 16)),
      (''favicon-32x32.png'', (32, 32)),
      (''favicon-48x48.png'', (48, 48)),
      (''apple-touch-icon.png'', (180, 180)),
      (''logo-192.png'', (192, 192)),
      (''logo-512.png'', (512, 512)),
      (''logo-64.png'', (64, 64))]"

definition ico_sizes :: "(nat \<times> nat) list" where
  "ico_sizes = [(16, 16), (32, 32), (48, 48)]"

definition og_size :: "nat \<times> nat" where
  "og_size = (1200, 630)"

text \<open>\<open>x = (size[0] - resized.width) // 2\<close> and \<open>y = (size[1] - resized.height) // 2\<close>
  on Python's integers: \<open>//\<close> rounds towards minus infinity, as \<open>div\<close> on \<open>int\<close> does.\<close>

definition center_offset :: "nat \<times> nat \<Rightarrow> image \<Rightarrow> int \<times> int" where
  "center_offset sz resized =
     ((int (fst sz) - int (width resized)) div 2, (int (snd sz) - int (height resized)) div 2)"

text \<open>
  The block the script runs for every sized variant (lines 75 to 82) and again for every
  icon size (lines 92 to 97): scale a copy of the source into the box, make a transparent
  canvas of the box's size, paste the scaled copy at the centring offset.
\<close>

definition fit_center :: "platform \<Rightarrow> image \<Rightarrow> nat \<times> nat \<Rightarrow> py_error + image" where
  "fit_center pf img sz =
     (case thumbnail pf img sz of
        Inl e \<Rightarrow> Inl e
      | Inr resized \<Rightarrow>
          (let canvas = Image_new RGBA sz (0, 0, 0, 0)
           in Inr (paste canvas resized (center_offset sz resized))))"

text \<open>The two progress lines: \<open>f"  Skipped: {filename} (would overwrite source)"\<close>
  and \<open>f"  Created: {filename} ({size[0]}x{size[1]})"\<close>.\<close>

definition skipped_line :: "string \<Rightarrow> string" where
  "skipped_line filename = ''  Skipped: '' @ filename @ '' (would overwrite source)''"

definition created_line :: "string \<Rightarrow> nat \<times> nat \<Rightarrow> string" where
  "created_line filename sz =
     ''  Created: '' @ filename @ '' ('' @ str_nat (fst sz) @ ''x'' @ str_nat (snd sz) @ '')''"

text \<open>The loop over \<open>sizes.items()\<close> (lines 67 to 85).\<close>

fun emit_sized ::
  "platform \<Rightarrow> image \<Rightarrow> path \<Rightarrow> path \<Rightarrow> (string \<times> nat \<times> nat) list \<Rightarrow> state
   \<Rightarrow> abort option \<times> state" where
  "emit_sized pf img source output [] s = (None, s)"
| "emit_sized pf img source output ((filename, sz) # rest) s =
     (let output_path = joinpath output filename in
      if resolve pf output_path = resolve pf source
      then emit_sized pf img source output rest
             (print (skipped_line filename) s)
      else (case fit_center pf img sz of
              Inl e \<Rightarrow> (Some (Raised e), s)
            | Inr canvas \<Rightarrow>
                (case save_png pf canvas output_path s of
                   Inl e \<Rightarrow> (Some (Raised e), s)
                 | Inr s' \<Rightarrow>
                     emit_sized pf img source output rest
                       (print (created_line filename sz) s'))))"

text \<open>The loop that fills \<open>ico_images\<close> (lines 91 to 98).\<close>

fun ico_canvases :: "platform \<Rightarrow> image \<Rightarrow> (nat \<times> nat) list \<Rightarrow> py_error + image list" where
  "ico_canvases pf img [] = Inr []"
| "ico_canvases pf img (sz # rest) =
     (case fit_center pf img sz of
        Inl e \<Rightarrow> Inl e
      | Inr canvas \<Rightarrow>
          (case ico_canvases pf img rest of
             Inl e \<Rightarrow> Inl e
           | Inr ico_images \<Rightarrow> Inr (canvas # ico_images)))"

text \<open>Lines 88 to 107: the three canvases, then
  \<open>ico_images[0].save(ico_path, format="ICO", sizes=ico_sizes, append_images=ico_images[1:])\<close>.\<close>

definition emit_favicon :: "platform \<Rightarrow> image \<Rightarrow> path \<Rightarrow> state \<Rightarrow> abort option \<times> state" where
  "emit_favicon pf img output s =
     (case ico_canvases pf img ico_sizes of
        Inl e \<Rightarrow> (Some (Raised e), s)
      | Inr ico_images \<Rightarrow>
          (let ico_path = joinpath output ''favicon.ico'' in
           case ico_images of
             [] \<Rightarrow> (Some (Raised IndexError), s)
           | first # others \<Rightarrow>
               (case save_ico pf first ico_path ico_sizes others s of
                  Inl e \<Rightarrow> (Some (Raised e), s)
                | Inr s' \<Rightarrow> (None, print ''  Created: favicon.ico (16x16, 32x32, 48x48)'' s'))))"

text \<open>Lines 110 to 119: the white banner with the logo, scaled into 300 by 300, blended
  onto its centre through the logo's own alpha band.\<close>

definition og_canvas :: "platform \<Rightarrow> image \<Rightarrow> py_error + image" where
  "og_canvas pf img =
     (let og_image = Image_new RGBA og_size (255, 255, 255, 255) in
      case thumbnail pf img (300, 300) of
        Inl e \<Rightarrow> Inl e
      | Inr og_logo \<Rightarrow> Inr (paste_mask og_image og_logo (center_offset og_size og_logo) og_logo))"

text \<open>Lines 110 to 123.\<close>

definition emit_og :: "platform \<Rightarrow> image \<Rightarrow> path \<Rightarrow> state \<Rightarrow> abort option \<times> state" where
  "emit_og pf img output s =
     (case og_canvas pf img of
        Inl e \<Rightarrow> (Some (Raised e), s)
      | Inr og_image \<Rightarrow>
          (let og_path = joinpath output ''og-image.png'' in
           case save_png pf (convert_RGB og_image) og_path s of
             Inl e \<Rightarrow> (Some (Raised e), s)
           | Inr s' \<Rightarrow>
               (None, print (created_line ''og-image.png'' og_size) s')))"

text \<open>Lines 56 to 126: everything after the source image has been loaded.\<close>

definition emit_all :: "platform \<Rightarrow> image \<Rightarrow> path \<Rightarrow> path \<Rightarrow> state \<Rightarrow> abort option \<times> state" where
  "emit_all pf img source output s =
     (case emit_sized pf img source output sizes s of
        (Some a, s1) \<Rightarrow> (Some a, s1)
      | (None, s1) \<Rightarrow>
          (case emit_favicon pf img output s1 of
             (Some a, s2) \<Rightarrow> (Some a, s2)
           | (None, s2) \<Rightarrow>
               (case emit_og pf img output s2 of
                  (Some a, s3) \<Rightarrow> (Some a, s3)
                | (None, s3) \<Rightarrow> (None, print ''Done!'' (print [] s3)))))"

text \<open>Lines 52 to 54: the source with its size, the output directory, an empty line.\<close>

definition print_header :: "path \<Rightarrow> path \<Rightarrow> image \<Rightarrow> state \<Rightarrow> state" where
  "print_header source output img s =
     print [] (print (''Output: '' @ str_path output)
       (print (''Source: '' @ str_path source @ '' ('' @ str_nat (width img) @ ''x''
               @ str_nat (height img) @ '')'') s))"

text \<open>\<open>resize_logo(source_path, output_dir)\<close>.\<close>

definition resize_logo :: "platform \<Rightarrow> string \<Rightarrow> string \<Rightarrow> state \<Rightarrow> abort option \<times> state" where
  "resize_logo pf source_path output_dir s =
     (let source = Path source_path; output = Path output_dir in
      case mkdir_parents (files s) (resolve pf output) of
        Inl e \<Rightarrow> (Some (Raised e), s)
      | Inr f1 \<Rightarrow>
          (let s1 = s\<lparr>files := f1\<rparr> in
           if \<not> exists pf (files s1) source
           then (Some (SysExit 1), print (''Error: Source file not found: '' @ str_path source) s1)
           else (case Image_open pf (files s1) source of
                   Inl e \<Rightarrow> (Some (Raised e), s1)
                 | Inr img0 \<Rightarrow>
                     (let img = (if mode img0 \<noteq> RGBA then convert_RGBA pf img0 else img0);
                          s2 = print_header source output img s1
                      in emit_all pf img source output s2))))"

text \<open>The module's docstring \<open>__doc__\<close>, which \<open>main\<close> prints when no source is
  given: its lines, joined by the newline character.\<close>

definition doc_lines :: "string list" where
  "doc_lines =
     [[],
      ''Logo Resizer for Web Projects'',
      [],
      ''Resizes a source logo to common sizes needed for web projects:'',
      ''- favicon.ico (16x16, 32x32, 48x48 multi-size)'',
      ''- favicon-16x16.png'',
      ''- favicon-32x32.png'',
      ''- apple-touch-icon.png (180x180)'',
      ''- logo-192.png (PWA)'',
      ''- logo-512.png (PWA)'',
      ''- navbar logo (configurable, default 32px height)'',
      ''- og-image.png (1200x630 with logo centered)'',
      [],
      ''Usage:'',
      ''    python resize-logo.py <source_logo> [output_dir]'',
      ''    python resize-logo.py logo.png static/img/'',
      ''    python resize-logo.py logo.png  # outputs to current directory'',
      [],
      ''Requirements:'',
      ''    pip install Pillow'',
      []]"

definition usage :: string where
  "usage = intercalate [CHR 0x0A] doc_lines"

text \<open>\<open>main()\<close>, with \<open>sys.argv\<close> as its argument.\<close>

definition main :: "platform \<Rightarrow> string list \<Rightarrow> state \<Rightarrow> abort option \<times> state" where
  "main pf argv s =
     (if length argv < 2 then (Some (SysExit 1), print usage s)
      else (let source = argv ! 1;
                output_dir = (if length argv > 2 then argv ! 2 else ''.'')
            in resize_logo pf source output_dir s))"

subsection \<open>A plain platform and small inputs\<close>

text \<open>
  A platform without symbolic links, to run the script on concrete inputs: a relative path
  is resolved against the working directory and \<open>..\<close> parts are folded away; a PNG file
  decodes to the image it holds, an ICO file to its first frame, anything else does not
  decode; the conversion to \<open>RGBA\<close> keeps the pixels and the resampling picks the
  nearest pixel.
\<close>

fun dotdot :: "path \<Rightarrow> path \<Rightarrow> path" where
  "dotdot seen [] = rev seen"
| "dotdot seen (x # xs) =
     (if x = ''..'' then dotdot (case seen of [] \<Rightarrow> [] | [r] \<Rightarrow> [r] | a # as \<Rightarrow> as) xs
      else dotdot (x # seen) xs)"

definition plain_resolve :: "path \<Rightarrow> path \<Rightarrow> path" where
  "plain_resolve cwd p = dotdot [] (if is_absolute p then p else cwd @ p)"

definition plain_decode :: "content \<Rightarrow> image option" where
  "plain_decode c =
     (case c of PNG im \<Rightarrow> Some im
      | ICO frames \<Rightarrow> (case frames of [] \<Rightarrow> None | im # ims \<Rightarrow> Some im)
      | Blob b \<Rightarrow> None)"

definition plain :: "path \<Rightarrow> platform" where
  "plain cwd =
     \<lparr>resolve = plain_resolve cwd,
      decode = plain_decode,
      to_rgba = px,
      lanczos = (\<lambda>im sz i j. px im (i * width im div fst sz) (j * height im div snd sz))\<rparr>"

text \<open>An opaque black image of the given size.\<close>

definition black :: "nat \<Rightarrow> nat \<Rightarrow> image" where
  "black w h = \<lparr>mode = RGBA, width = w, height = h, px = (\<lambda>i j. (0, 0, 0, 255))\<rparr>"

text \<open>A file system holding the directories \<open>/\<close> and \<open>/w\<close> and nothing else, and the
  state of a process that has not printed or written anything yet.\<close>

definition bare_fs :: fs where
  "bare_fs = [[''/''] \<mapsto> Dir, [''/'', ''w''] \<mapsto> Dir]"


definition out_fs :: "string \<Rightarrow> fs" where
  "out_fs name =
     bare_fs([''/'', ''w'', ''out''] \<mapsto> Dir,
             [''/'', ''w'', ''out'', name] \<mapsto> File (PNG (black 17 16)))"

definition start :: "fs \<Rightarrow> state" where
  "start f = \<lparr>files = f, stdout = [], written = []\<rparr>"

subsection \<open>Vocabulary for the write trace\<close>

text \<open>A trace entry \<open>w\<close> is the write of a sized variant of the table \<open>tbl\<close>:
  the path of an entry that the guard lets through, holding the PNG of that entry's
  canvas.\<close>

definition sized_entry ::
  "platform \<Rightarrow> image \<Rightarrow> path \<Rightarrow> path \<Rightarrow> (string \<times> nat \<times> nat) list \<Rightarrow> path \<times> content \<Rightarrow> bool" where
  "sized_entry pf img source output tbl w =
     (\<exists>filename sz canvas. (filename, sz) \<in> set tbl \<and>
        fst w = resolve pf (joinpath output filename) \<and> fst w \<noteq> resolve pf source \<and>
        snd w = PNG canvas \<and> fit_center pf img sz = Inr canvas)"

section \<open>Properties\<close>

subsection \<open>The size rule of thumbnail\<close>

lemma floor_rat_numeral [simp]:
  "\<lfloor>numeral a / numeral b :: rat\<rfloor> = numeral a div numeral b"
  by (metis floor_divide_of_int_eq of_int_numeral)

lemma ceiling_rat_numeral [simp]:
  "\<lceil>numeral a / numeral b :: rat\<rceil> = - (- numeral a div numeral b)"
  using ceiling_divide_eq_div[of "numeral a" "numeral b", where ?'a = rat] by simp

lemma round_aspect_cases:
  "int (round_aspect q key) = max \<lfloor>q\<rfloor> 1 \<or> int (round_aspect q key) = max \<lceil>q\<rceil> 1"
  by (auto simp add: round_aspect_def max_def)

lemma round_aspect_le:
  assumes "q \<le> of_nat b" "0 < b"
  shows "round_aspect q key \<le> b"
proof -
  have "\<lceil>q\<rceil> \<le> int b" using assms(1) by (simp add: ceiling_le_iff)
  moreover have "\<lfloor>q\<rfloor> \<le> \<lceil>q\<rceil>" by (rule floor_le_ceiling)
  ultimately show ?thesis using assms(2) round_aspect_cases[of q key] by linarith
qed

lemma round_aspect_pos: "0 < round_aspect q key"
  by (simp add: round_aspect_def)


lemma preserve_fits:
  "width im \<le> x \<Longrightarrow> height im \<le> y \<Longrightarrow> preserve_aspect_ratio im (x, y) = Inr None"
  by (simp add: preserve_aspect_ratio_def)

lemma preserve_total:
  "0 < height im \<Longrightarrow> 0 < y \<Longrightarrow> \<exists>r. preserve_aspect_ratio im (x, y) = Inr r"
  by (simp add: preserve_aspect_ratio_def Let_def)

lemma preserve_bounds:
  assumes "preserve_aspect_ratio im (x, y) = Inr (Some (a, b))" "0 < x"
  shows "a \<le> x \<and> b \<le> y \<and> 0 < a \<and> 0 < b"
proof -
  let ?asp = "(of_nat (width im) :: rat) / of_nat (height im)"
  from assms(1) have h: "0 < height im" and y: "0 < y"
    by (auto simp: preserve_aspect_ratio_def Let_def split: if_splits)
  show ?thesis
  proof (cases "of_nat x / of_nat y \<ge> ?asp")
    case True
    with assms(1) h y have a: "a = round_aspect (of_nat y * ?asp) (\<lambda>n. \<bar>?asp - of_int n / of_nat y\<bar>)" and b: "b = y"
      by (auto simp: preserve_aspect_ratio_def Let_def split: if_splits)
    have "of_nat y * ?asp \<le> (of_nat x :: rat)"
      using True y by (simp add: pos_le_divide_eq mult.commute)
    then have "a \<le> x" unfolding a using assms(2) by (rule round_aspect_le)
    then show ?thesis using a b y round_aspect_pos by simp
  next
    case False
    with assms(1) h y have b: "b = round_aspect (of_nat x / ?asp) (\<lambda>n. if n = 0 then 0 else \<bar>?asp - of_nat x / of_int n\<bar>)" and a: "a = x"
      by (auto simp: preserve_aspect_ratio_def Let_def split: if_splits)
    from False have lt: "of_nat x / of_nat y < ?asp" by simp
    have "0 \<le> (of_nat x :: rat) / of_nat y" by simp
    with lt have pos: "0 < ?asp" by linarith
    have y': "0 < (of_nat y :: rat)" using y by simp
    have "(of_nat x :: rat) < ?asp * of_nat y"
      using lt by (rule iffD1[OF pos_divide_less_eq[OF y']])
    then have "(of_nat x :: rat) < of_nat y * ?asp" by (simp only: mult.commute)
    then have "(of_nat x :: rat) / ?asp < of_nat y"
      by (rule iffD2[OF pos_divide_less_eq[OF pos]])
    then have "of_nat x / ?asp \<le> (of_nat y :: rat)" by simp
    then have "b \<le> y" unfolding b using y by (rule round_aspect_le)
    then show ?thesis using a b assms(2) round_aspect_pos by simp
  qed
qed


lemma preserve_None_iff:
  "preserve_aspect_ratio im (x, y) = Inr None \<longleftrightarrow> width im \<le> x \<and> height im \<le> y"
  by (auto simp: preserve_aspect_ratio_def Let_def split: if_splits)

lemma thumbnail_cases:
  assumes "0 < fst box" "0 < snd box" "0 < height im"
  shows "(width im \<le> fst box \<and> height im \<le> snd box \<and> thumbnail pf im box = Inr im) \<or>
         (\<not> (width im \<le> fst box \<and> height im \<le> snd box) \<and>
          (\<exists>a b. preserve_aspect_ratio im box = Inr (Some (a, b)) \<and>
                 thumbnail pf im box = Inr (resize pf im (a, b))))"
proof (cases "width im \<le> fst box \<and> height im \<le> snd box")
  case True
  then have "preserve_aspect_ratio im box = Inr None"
    using preserve_fits[of im "fst box" "snd box"] by simp
  then show ?thesis using True by (simp add: thumbnail_def)
next
  case False
  obtain r where r: "preserve_aspect_ratio im box = Inr r"
    using preserve_total[OF assms(3) assms(2), of "fst box"] by auto
  have "r \<noteq> None" using False r preserve_None_iff[of im "fst box" "snd box"] by auto
  then obtain a b where ab: "r = Some (a, b)" by (cases r) auto
  have bd: "a \<le> fst box \<and> b \<le> snd box"
    using preserve_bounds[of im "fst box" "snd box" a b] r ab assms(1) by simp
  have "(width im, height im) \<noteq> (a, b)" using False bd by auto
  then show ?thesis using False r ab by (auto simp: thumbnail_def)
qed

lemma thumbnail_ok:
  assumes "0 < fst box" "0 < snd box" "0 < height im"
  shows "\<exists>r. thumbnail pf im box = Inr r \<and> width r \<le> fst box \<and> height r \<le> snd box \<and>
             mode r = mode im"
  using thumbnail_cases[OF assms, of pf]
proof (elim disjE conjE exE)
  fix a b
  assume p: "preserve_aspect_ratio im box = Inr (Some (a, b))"
    and t: "thumbnail pf im box = Inr (resize pf im (a, b))"
  have "a \<le> fst box \<and> b \<le> snd box"
    using preserve_bounds[of im "fst box" "snd box" a b] p assms(1) by simp
  then show ?thesis using t by (simp add: resize_def)
qed simp


subsection \<open>Scaling into the box\<close>




subsection \<open>The loop over the sized variants\<close>

lemma fit_center_size:
  "fit_center pf img sz = Inr canvas \<Longrightarrow>
     width canvas = fst sz \<and> height canvas = snd sz \<and> mode canvas = RGBA"
  by (auto simp: fit_center_def paste_def Image_new_def Let_def split: sum.splits)

lemma fit_center_ok:
  assumes "0 < fst sz" "0 < snd sz" "0 < height img"
  shows "\<exists>canvas. fit_center pf img sz = Inr canvas"
  using thumbnail_ok[OF assms, of pf] by (auto simp: fit_center_def Let_def)

lemma write_file_ok:
  assumes "files s (resolve pf p) \<noteq> Some Dir"
  shows "write_file pf p c s =
     Inr (s\<lparr>files := (files s)(resolve pf p \<mapsto> File c), written := written s @ [(resolve pf p, c)]\<rparr>)"
  using assms by (auto simp: write_file_def split: option.splits node.splits)

lemma write_file_Inr:
  assumes "write_file pf p c s = Inr s'"
  shows "s' = s\<lparr>files := (files s)(resolve pf p \<mapsto> File c), written := written s @ [(resolve pf p, c)]\<rparr>
         \<and> files s (resolve pf p) \<noteq> Some Dir"
  using assms by (auto simp: write_file_def split: option.splits node.splits)

lemma print_fields [simp]:
  "files (print l s) = files s" "written (print l s) = written s"
  "stdout (print l s) = stdout s @ [l]"
  by (simp_all add: print_def)

lemma save_png_Inr:
  assumes "save_png pf im p s = Inr s'"
  shows "written s' = written s @ [(resolve pf p, PNG im)]"
    and "files s' = (files s)(resolve pf p \<mapsto> File (PNG im))"
    and "stdout s' = stdout s"
    and "files s (resolve pf p) \<noteq> Some Dir"
  using write_file_Inr[of pf p "PNG im" s s'] assms by (simp_all add: save_png_def)

lemma save_png_ok:
  assumes "files s (resolve pf p) \<noteq> Some Dir"
  shows "\<exists>s'. save_png pf im p s = Inr s'"
  using write_file_ok[OF assms] by (simp add: save_png_def)

text \<open>One round of the loop over the sized variants.\<close>

lemma emit_sized_step:
  assumes "emit_sized pf img source output ((filename, sz) # rest) s = (r, s')"
  obtains
    (skip) "resolve pf (joinpath output filename) = resolve pf source"
      "emit_sized pf img source output rest (print (skipped_line filename) s) = (r, s')"
  | (scale_fails) e where "resolve pf (joinpath output filename) \<noteq> resolve pf source"
      "fit_center pf img sz = Inl e" "r = Some (Raised e)" "s' = s"
  | (save_fails) canvas e where "resolve pf (joinpath output filename) \<noteq> resolve pf source"
      "fit_center pf img sz = Inr canvas"
      "save_png pf canvas (joinpath output filename) s = Inl e" "r = Some (Raised e)" "s' = s"
  | (saved) canvas s1 where "resolve pf (joinpath output filename) \<noteq> resolve pf source"
      "fit_center pf img sz = Inr canvas"
      "save_png pf canvas (joinpath output filename) s = Inr s1"
      "emit_sized pf img source output rest (print (created_line filename sz) s1) = (r, s')"
proof (cases "resolve pf (joinpath output filename) = resolve pf source")
  case True
  with assms show ?thesis by (intro skip) (simp_all add: Let_def)
next
  case False
  show ?thesis
  proof (cases "fit_center pf img sz")
    case (Inl e)
    with assms False show ?thesis by (intro scale_fails[of e]) (simp_all add: Let_def)
  next
    case (Inr canvas)
    show ?thesis
    proof (cases "save_png pf canvas (joinpath output filename) s")
      case (Inl e)
      with assms False Inr show ?thesis by (intro save_fails[of canvas e]) (simp_all add: Let_def)
    next
      case sv: (Inr s1)
      with assms False Inr show ?thesis by (intro saved[of canvas s1]) (simp_all add: Let_def)
    qed
  qed
qed

declare emit_sized.simps(2) [simp del]

lemma sized_entry_Cons:
  "sized_entry pf img source output tbl w \<Longrightarrow> sized_entry pf img source output (e # tbl) w"
  unfolding sized_entry_def by auto

lemma emit_sized_trace:
  "emit_sized pf img source output tbl s = (r, s') \<Longrightarrow>
     \<exists>ws. written s' = written s @ ws \<and> list_all (sized_entry pf img source output tbl) ws"
proof (induction tbl arbitrary: s)
  case Nil
  then show ?case by simp
next
  case (Cons e tbl)
  obtain filename sz where e: "e = (filename, sz)" by (cases e)
  let ?Q = "sized_entry pf img source output"
  have mono: "\<And>ws. list_all (?Q tbl) ws \<Longrightarrow> list_all (?Q (e # tbl)) ws"
    using sized_entry_Cons[of pf img source "output" tbl _ e] by (simp add: list_all_iff)
  from Cons.prems[unfolded e] show ?case
  proof (cases rule: emit_sized_step)
    case skip
    from Cons.IH[OF skip(2)] obtain ws where "written s' = written s @ ws" "list_all (?Q tbl) ws"
      by auto
    then show ?thesis using mono by blast
  next
    case (scale_fails err)
    then show ?thesis by simp
  next
    case (save_fails canvas err)
    then show ?thesis by simp
  next
    case (saved canvas s1)
    note s1 = save_png_Inr(1)[OF saved(3)]
    from Cons.IH[OF saved(4)] obtain ws where
      ws: "written s' = written s1 @ ws" "list_all (?Q tbl) ws"
      by auto
    have hd: "?Q (e # tbl) (resolve pf (joinpath output filename), PNG canvas)"
      unfolding sized_entry_def using e saved(1,2)
      by (intro exI[of _ filename] exI[of _ sz] exI[of _ canvas]) simp
    have "written s' = written s @ ((resolve pf (joinpath output filename), PNG canvas) # ws)"
      using ws(1) s1 by simp
    moreover have "list_all (?Q (e # tbl)) ((resolve pf (joinpath output filename), PNG canvas) # ws)"
      using hd mono[OF ws(2)] by simp
    ultimately show ?thesis by blast
  qed
qed

text \<open>The paths the loop writes when it runs to its end: the entries the guard lets
  through, in table order.\<close>

lemma emit_sized_paths:
  "emit_sized pf img source output tbl s = (None, s') \<Longrightarrow>
     map fst (written s') = map fst (written s) @
       map (\<lambda>e. resolve pf (joinpath output (fst e)))
         (filter (\<lambda>e. resolve pf (joinpath output (fst e)) \<noteq> resolve pf source) tbl)"
proof (induction tbl arbitrary: s)
  case Nil
  then show ?case by simp
next
  case (Cons e tbl)
  obtain filename sz where e: "e = (filename, sz)" by (cases e)
  from Cons.prems[unfolded e] show ?case
  proof (cases rule: emit_sized_step)
    case skip
    from Cons.IH[OF skip(2)] skip(1) e show ?thesis by simp
  next
    case (saved canvas s1)
    from Cons.IH[OF saved(4)] saved(1) e save_png_Inr(1)[OF saved(3)] show ?thesis by simp
  qed simp_all
qed

lemma emit_sized_dirs:
  "emit_sized pf img source output tbl s = (r, s') \<Longrightarrow>
     (files s' p = Some Dir \<longleftrightarrow> files s p = Some Dir)"
proof (induction tbl arbitrary: s)
  case Nil
  then show ?case by simp
next
  case (Cons e tbl)
  obtain filename sz where e: "e = (filename, sz)" by (cases e)
  from Cons.prems[unfolded e] show ?case
  proof (cases rule: emit_sized_step)
    case skip
    from Cons.IH[OF skip(2)] show ?thesis by simp
  next
    case (saved canvas s1)
    from Cons.IH[OF saved(4)] save_png_Inr(2,4)[OF saved(3)] show ?thesis by auto
  qed simp_all
qed

lemma emit_sized_stdout:
  "emit_sized pf img source output tbl s = (r, s') \<Longrightarrow> set (stdout s) \<subseteq> set (stdout s')"
proof (induction tbl arbitrary: s)
  case Nil
  then show ?case by simp
next
  case (Cons e tbl)
  obtain filename sz where e: "e = (filename, sz)" by (cases e)
  from Cons.prems[unfolded e] show ?case
  proof (cases rule: emit_sized_step)
    case skip
    from Cons.IH[OF skip(2)] show ?thesis by simp
  next
    case (saved canvas s1)
    from Cons.IH[OF saved(4)] save_png_Inr(3)[OF saved(3)] show ?thesis by simp
  qed simp_all
qed

lemma emit_sized_skipped:
  "emit_sized pf img source output tbl s = (None, s') \<Longrightarrow> (filename, sz) \<in> set tbl \<Longrightarrow>
   resolve pf (joinpath output filename) = resolve pf source \<Longrightarrow>
     skipped_line filename \<in> set (stdout s')"
proof (induction tbl arbitrary: s)
  case Nil
  then show ?case by simp
next
  case (Cons e tbl)
  obtain f z where e: "e = (f, z)" by (cases e)
  from Cons.prems(1)[unfolded e] show ?case
  proof (cases rule: emit_sized_step)
    case skip
    show ?thesis
    proof (cases "(filename, sz) = e")
      case True
      then have "skipped_line filename \<in> set (stdout (print (skipped_line f) s))" using e by simp
      then show ?thesis using emit_sized_stdout[OF skip(2)] by blast
    next
      case False
      then have "(filename, sz) \<in> set tbl" using Cons.prems(2) by simp
      from Cons.IH[OF skip(2) this Cons.prems(3)] show ?thesis .
    qed
  next
    case (saved canvas s1)
    have "(filename, sz) \<noteq> e" using saved(1) Cons.prems(3) e by auto
    then have "(filename, sz) \<in> set tbl" using Cons.prems(2) by simp
    from Cons.IH[OF saved(4) this Cons.prems(3)] show ?thesis .
  qed simp_all
qed

lemma emit_sized_completes:
  assumes "0 < height img"
    and "\<forall>e \<in> set tbl. 0 < fst (snd e) \<and> 0 < snd (snd e)"
    and "\<forall>e \<in> set tbl. files s (resolve pf (joinpath output (fst e))) \<noteq> Some Dir"
  shows "fst (emit_sized pf img source output tbl s) = None"
  using assms(2,3)
proof (induction tbl arbitrary: s)
  case Nil
  then show ?case by simp
next
  case (Cons e tbl)
  obtain filename sz where e: "e = (filename, sz)" by (cases e)
  show ?case
  proof (cases "resolve pf (joinpath output filename) = resolve pf source")
    case True
    have "fst (emit_sized pf img source output tbl (print (skipped_line filename) s)) = None"
      using Cons.prems by (intro Cons.IH) simp_all
    then show ?thesis using True e by (simp add: emit_sized.simps(2) Let_def)
  next
    case False
    obtain canvas where c: "fit_center pf img sz = Inr canvas"
      using fit_center_ok[of sz img pf] Cons.prems(1) assms(1) e by auto
    obtain s1 where s1: "save_png pf canvas (joinpath output filename) s = Inr s1"
      using save_png_ok[of s pf "joinpath output filename" canvas] Cons.prems(2) e by auto
    have nd: "\<forall>e \<in> set tbl. files s1 (resolve pf (joinpath output (fst e))) \<noteq> Some Dir"
      using Cons.prems(2) save_png_Inr(2)[OF s1] by auto
    have "fst (emit_sized pf img source output tbl (print (created_line filename sz) s1)) = None"
      using Cons.prems(1) nd by (intro Cons.IH) simp_all
    then show ?thesis using False e c s1 by (simp add: emit_sized.simps(2) Let_def)
  qed
qed

subsection \<open>Creating the output directory\<close>


subsection \<open>The icon file\<close>

lemma sort_ico_sizes: "sort (remdups ico_sizes) = ico_sizes"
  by (simp add: ico_sizes_def less_eq_prod_def)

lemma ico_canvases_Inr:
  assumes "ico_canvases pf img ico_sizes = Inr cs"
  shows "\<exists>c16 c32 c48. cs = [c16, c32, c48] \<and> fit_center pf img (16, 16) = Inr c16 \<and>
           fit_center pf img (32, 32) = Inr c32 \<and> fit_center pf img (48, 48) = Inr c48"
  using assms by (auto simp: ico_sizes_def split: sum.splits)

lemma ico_canvases_ok:
  assumes "0 < height img"
  shows "\<exists>cs. ico_canvases pf img ico_sizes = Inr cs"
proof -
  obtain c16 where "fit_center pf img (16, 16) = Inr c16"
    using fit_center_ok[of "(16, 16)" img pf] assms by auto
  moreover obtain c32 where "fit_center pf img (32, 32) = Inr c32"
    using fit_center_ok[of "(32, 32)" img pf] assms by auto
  moreover obtain c48 where "fit_center pf img (48, 48) = Inr c48"
    using fit_center_ok[of "(48, 48)" img pf] assms by auto
  ultimately show ?thesis by (simp add: ico_sizes_def)
qed

text \<open>Saved from the 16 by 16 canvas, the icon file gets that canvas and nothing else.\<close>

lemma ico_frames_first:
  assumes "width c16 = 16" "height c16 = 16"
  shows "ico_frames pf c16 (c16 # others) ico_sizes = Inr [c16]"
  using assms by (simp add: ico_sizes_def)

lemma save_ico_Inr:
  assumes "width c16 = 16" "height c16 = 16" "save_ico pf c16 p ico_sizes others s = Inr s'"
  shows "s' = s\<lparr>files := (files s)(resolve pf p \<mapsto> File (ICO [c16])),
                  written := written s @ [(resolve pf p, ICO [c16])]\<rparr>
         \<and> files s (resolve pf p) \<noteq> Some Dir"
  using assms(3) write_file_Inr[of pf p "ICO [c16]" s s']
  by (simp add: save_ico_def sort_ico_sizes ico_frames_first[OF assms(1,2)])

lemma save_ico_ok:
  assumes "width c16 = 16" "height c16 = 16" "files s (resolve pf p) \<noteq> Some Dir"
  shows "\<exists>s'. save_ico pf c16 p ico_sizes others s = Inr s'"
  using write_file_ok[OF assms(3), of "ICO [c16]"]
  by (simp add: save_ico_def sort_ico_sizes ico_frames_first[OF assms(1,2)])

lemma emit_favicon_None:
  assumes "emit_favicon pf img output s = (None, s')"
  shows "\<exists>c16. fit_center pf img (16, 16) = Inr c16 \<and>
           s' = print ''  Created: favicon.ico (16x16, 32x32, 48x48)''
                  (s\<lparr>files := (files s)(resolve pf (joinpath output ''favicon.ico'') \<mapsto> File (ICO [c16])),
                     written := written s @ [(resolve pf (joinpath output ''favicon.ico''), ICO [c16])]\<rparr>)
           \<and> files s (resolve pf (joinpath output ''favicon.ico'')) \<noteq> Some Dir"
proof -
  from assms obtain cs where cs: "ico_canvases pf img ico_sizes = Inr cs"
    by (cases "ico_canvases pf img ico_sizes") (auto simp: emit_favicon_def)
  from ico_canvases_Inr[OF cs] obtain c16 c32 c48 where
    l: "cs = [c16, c32, c48]" and c: "fit_center pf img (16, 16) = Inr c16" by blast
  have d: "width c16 = 16" "height c16 = 16" using fit_center_size[OF c] by simp_all
  from assms cs l obtain s1 where
    s1: "save_ico pf c16 (joinpath output ''favicon.ico'') ico_sizes [c32, c48] s = Inr s1"
    and s': "s' = print ''  Created: favicon.ico (16x16, 32x32, 48x48)'' s1"
    by (cases "save_ico pf c16 (joinpath output ''favicon.ico'') ico_sizes [c32, c48] s")
       (auto simp: emit_favicon_def Let_def)
  from save_ico_Inr[OF d s1] c s' show ?thesis by blast
qed

lemma emit_favicon_unchanged:
  assumes "emit_favicon pf img output s = (Some a, s')"
  shows "s' = s"
  using assms
  by (auto simp: emit_favicon_def Let_def split: sum.splits list.splits)

lemma emit_favicon_completes:
  assumes "0 < height img" "files s (resolve pf (joinpath output ''favicon.ico'')) \<noteq> Some Dir"
  shows "fst (emit_favicon pf img output s) = None"
proof -
  obtain cs where cs: "ico_canvases pf img ico_sizes = Inr cs"
    using ico_canvases_ok[OF assms(1)] by blast
  from ico_canvases_Inr[OF cs] obtain c16 c32 c48 where
    l: "cs = [c16, c32, c48]" and c: "fit_center pf img (16, 16) = Inr c16" by blast
  have d: "width c16 = 16" "height c16 = 16" using fit_center_size[OF c] by simp_all
  obtain s1 where "save_ico pf c16 (joinpath output ''favicon.ico'') ico_sizes [c32, c48] s = Inr s1"
    using save_ico_ok[OF d assms(2)] by blast
  then show ?thesis using cs l by (simp add: emit_favicon_def Let_def)
qed

subsection \<open>The banner\<close>

lemma thumbnail_Inr_bounds:
  assumes "0 < fst box" "0 < snd box" "thumbnail pf im box = Inr r"
  shows "width r \<le> fst box \<and> height r \<le> snd box"
proof (cases "0 < height im")
  case True
  from thumbnail_ok[OF assms(1,2) True, of pf] assms(3) show ?thesis by auto
next
  case False
  then have h: "height im = 0" by simp
  show ?thesis
  proof (cases "width im \<le> fst box")
    case True
    then have "thumbnail pf im box = Inr im"
      using h by (cases box) (simp add: thumbnail_def preserve_aspect_ratio_def)
    with assms(3) True h show ?thesis by simp
  next
    case False
    then have "thumbnail pf im box = Inl ZeroDivisionError"
      using h by (cases box) (simp add: thumbnail_def preserve_aspect_ratio_def)
    with assms(3) show ?thesis by simp
  qed
qed

lemma og_canvas_ok:
  assumes "0 < height img"
  shows "\<exists>og. og_canvas pf img = Inr og"
  using thumbnail_ok[of "(300, 300)" img pf] assms by (auto simp: og_canvas_def Let_def)

lemma column_not_covered:
  assumes "width logo \<le> 300" "i = 0 \<or> i = 1199"
  shows "\<not> covered logo (center_offset og_size logo) i j"
  using assms by (auto simp: covered_def center_offset_def og_size_def)

lemma og_canvas_Inr:
  assumes "og_canvas pf img = Inr og"
  shows "width og = 1200 \<and> height og = 630 \<and> mode og = RGBA \<and>
         (\<forall>j. px og 0 j = (255, 255, 255, 255) \<and> px og 1199 j = (255, 255, 255, 255))"
proof -
  from assms obtain logo where l: "thumbnail pf img (300, 300) = Inr logo"
    and og: "og = paste_mask (Image_new RGBA og_size (255, 255, 255, 255)) logo
                   (center_offset og_size logo) logo"
    by (cases "thumbnail pf img (300, 300)") (auto simp: og_canvas_def Let_def)
  have w: "width logo \<le> 300" using thumbnail_Inr_bounds[OF _ _ l] by simp
  have nc: "\<And>j. \<not> covered logo (center_offset og_size logo) 0 j"
    "\<And>j. \<not> covered logo (center_offset og_size logo) 1199 j"
    using column_not_covered[OF w] by simp_all
  show ?thesis unfolding og
    by (simp add: paste_mask_def Image_new_def og_size_def[symmetric] nc) (simp add: og_size_def)
qed

lemma emit_og_None:
  assumes "emit_og pf img output s = (None, s')"
  shows "\<exists>og. og_canvas pf img = Inr og \<and>
           s' = print (created_line ''og-image.png'' og_size)
                  (s\<lparr>files := (files s)(resolve pf (joinpath output ''og-image.png'') \<mapsto> File (PNG (convert_RGB og))),
                     written := written s @ [(resolve pf (joinpath output ''og-image.png''), PNG (convert_RGB og))]\<rparr>)
           \<and> files s (resolve pf (joinpath output ''og-image.png'')) \<noteq> Some Dir"
proof -
  from assms obtain og where og: "og_canvas pf img = Inr og"
    by (cases "og_canvas pf img") (auto simp: emit_og_def)
  from assms og obtain s1 where
    s1: "save_png pf (convert_RGB og) (joinpath output ''og-image.png'') s = Inr s1"
    and s': "s' = print (created_line ''og-image.png'' og_size) s1"
    by (cases "save_png pf (convert_RGB og) (joinpath output ''og-image.png'') s")
       (auto simp: emit_og_def Let_def)
  from write_file_Inr[of pf "joinpath output ''og-image.png''" "PNG (convert_RGB og)" s s1] s1 og s'
  show ?thesis by (auto simp: save_png_def)
qed

lemma emit_og_unchanged:
  assumes "emit_og pf img output s = (Some a, s')"
  shows "s' = s"
  using assms by (auto simp: emit_og_def Let_def split: sum.splits)

lemma emit_og_completes:
  assumes "0 < height img" "files s (resolve pf (joinpath output ''og-image.png'')) \<noteq> Some Dir"
  shows "fst (emit_og pf img output s) = None"
proof -
  obtain og where og: "og_canvas pf img = Inr og" using og_canvas_ok[OF assms(1)] by blast
  obtain s1 where "save_png pf (convert_RGB og) (joinpath output ''og-image.png'') s = Inr s1"
    using save_png_ok[OF assms(2)] by blast
  then show ?thesis using og by (simp add: emit_og_def Let_def)
qed

subsection \<open>The whole run\<close>

lemma sizes_positive: "\<forall>e \<in> set sizes. 0 < fst (snd e) \<and> 0 < snd (snd e)"
  by (simp add: sizes_def)

lemma emit_all_None:
  assumes "emit_all pf img source output s = (None, s')"
  shows "map fst (written s') = map fst (written s) @
           map (\<lambda>e. resolve pf (joinpath output (fst e)))
             (filter (\<lambda>e. resolve pf (joinpath output (fst e)) \<noteq> resolve pf source) sizes) @
           [resolve pf (joinpath output ''favicon.ico''), resolve pf (joinpath output ''og-image.png'')]"
    and "\<And>filename sz. (filename, sz) \<in> set sizes \<Longrightarrow>
           resolve pf (joinpath output filename) = resolve pf source \<Longrightarrow>
           skipped_line filename \<in> set (stdout s')"
proof -
  obtain r1 s1 where e1: "emit_sized pf img source output sizes s = (r1, s1)" by fastforce
  obtain r2 s2 where e2: "emit_favicon pf img output s1 = (r2, s2)" by fastforce
  obtain r3 s3 where e3: "emit_og pf img output s2 = (r3, s3)" by fastforce
  from assms e1 have r1: "r1 = None" by (cases r1) (auto simp: emit_all_def)
  from assms e1 e2 r1 have r2: "r2 = None" by (cases r2) (auto simp: emit_all_def)
  from assms e1 e2 e3 r1 r2 have r3: "r3 = None" by (cases r3) (auto simp: emit_all_def)
  from assms e1 e2 e3 r1 r2 r3 have s': "s' = print ''Done!'' (print [] s3)"
    by (simp add: emit_all_def)
  from emit_favicon_None[OF e2[unfolded r2]] have
    w2: "written s2 = written s1 @ [(resolve pf (joinpath output ''favicon.ico''), ICO [projr (fit_center pf img (16, 16))])]"
    and o2: "stdout s2 = stdout s1 @ [''  Created: favicon.ico (16x16, 32x32, 48x48)'']"
    by auto
  from emit_og_None[OF e3[unfolded r3]] have
    w3: "map fst (written s3) = map fst (written s2) @ [resolve pf (joinpath output ''og-image.png'')]"
    and o3: "stdout s3 = stdout s2 @ [created_line ''og-image.png'' og_size]"
    by auto
  show "map fst (written s') = map fst (written s) @
           map (\<lambda>e. resolve pf (joinpath output (fst e)))
             (filter (\<lambda>e. resolve pf (joinpath output (fst e)) \<noteq> resolve pf source) sizes) @
           [resolve pf (joinpath output ''favicon.ico''), resolve pf (joinpath output ''og-image.png'')]"
    using emit_sized_paths[OF e1[unfolded r1]] w2 w3 s' by simp
  fix filename sz
  assume "(filename, sz) \<in> set sizes" "resolve pf (joinpath output filename) = resolve pf source"
  from emit_sized_skipped[OF e1[unfolded r1] this]
  show "skipped_line filename \<in> set (stdout s')" using o2 o3 s' by simp
qed

lemma emit_all_completes:
  assumes "0 < height img"
    and "\<forall>name \<in> set (map fst sizes @ [''favicon.ico'', ''og-image.png'']).
           files s (resolve pf (joinpath output name)) \<noteq> Some Dir"
  shows "fst (emit_all pf img source output s) = None"
proof -
  obtain r1 s1 where e1: "emit_sized pf img source output sizes s = (r1, s1)" by fastforce
  obtain r2 s2 where e2: "emit_favicon pf img output s1 = (r2, s2)" by fastforce
  obtain r3 s3 where e3: "emit_og pf img output s2 = (r3, s3)" by fastforce
  have "\<forall>e \<in> set sizes. files s (resolve pf (joinpath output (fst e))) \<noteq> Some Dir"
    using assms(2) by simp
  from emit_sized_completes[OF assms(1) sizes_positive this, of source] e1
  have r1: "r1 = None" by simp
  have "files s1 (resolve pf (joinpath output ''favicon.ico'')) \<noteq> Some Dir"
    using emit_sized_dirs[OF e1] assms(2) by simp
  from emit_favicon_completes[OF assms(1) this] e2 have r2: "r2 = None" by simp
  have d1: "files s1 (resolve pf (joinpath output ''og-image.png'')) \<noteq> Some Dir"
    using emit_sized_dirs[OF e1] assms(2) by simp
  from emit_favicon_None[OF e2[unfolded r2]] have
    "files s2 = (files s1)(resolve pf (joinpath output ''favicon.ico'') \<mapsto>
                   File (ICO [projr (fit_center pf img (16, 16))]))"
    by auto
  then have "files s2 (resolve pf (joinpath output ''og-image.png'')) \<noteq> Some Dir"
    using d1 by simp
  from emit_og_completes[OF assms(1) this] e3 have r3: "r3 = None" by simp
  show ?thesis using e1 e2 e3 r1 r2 r3 by (simp add: emit_all_def)
qed

lemma print_header_fields [simp]:
  "files (print_header source output img s) = files s"
  "written (print_header source output img s) = written s"
  by (simp_all add: print_header_def)

lemma resize_logo_loaded:
  assumes "mkdir_parents (files s) (resolve pf (Path output_dir)) = Inr f1"
    and "f1 (resolve pf (Path source_path)) = Some (File c)"
    and "decode pf c = Some img0"
  shows "resize_logo pf source_path output_dir s =
           emit_all pf (if mode img0 \<noteq> RGBA then convert_RGBA pf img0 else img0)
             (Path source_path) (Path output_dir)
             (print_header (Path source_path) (Path output_dir)
                (if mode img0 \<noteq> RGBA then convert_RGBA pf img0 else img0) (s\<lparr>files := f1\<rparr>))"
  using assms by (simp add: resize_logo_def exists_def Image_open_def Let_def)


lemma resize_logo_completes:
  assumes mk: "mkdir_parents (files s) (resolve pf (Path output_dir)) = Inr f1"
    and src: "f1 (resolve pf (Path source_path)) = Some (File c)"
    and dec: "decode pf c = Some img0"
    and h: "0 < height img0"
    and nd: "\<forall>name \<in> set (map fst sizes @ [''favicon.ico'', ''og-image.png'']).
               f1 (resolve pf (joinpath (Path output_dir) name)) \<noteq> Some Dir"
  shows "\<exists>s'. resize_logo pf source_path output_dir s = (None, s') \<and>
           map fst (written s') = map fst (written s) @
             map (\<lambda>e. resolve pf (joinpath (Path output_dir) (fst e)))
               (filter (\<lambda>e. resolve pf (joinpath (Path output_dir) (fst e))
                              \<noteq> resolve pf (Path source_path)) sizes) @
             [resolve pf (joinpath (Path output_dir) ''favicon.ico''),
              resolve pf (joinpath (Path output_dir) ''og-image.png'')] \<and>
           (\<forall>filename sz. (filename, sz) \<in> set sizes \<longrightarrow>
              resolve pf (joinpath (Path output_dir) filename) = resolve pf (Path source_path) \<longrightarrow>
              skipped_line filename \<in> set (stdout s'))"
proof -
  let ?img = "if mode img0 \<noteq> RGBA then convert_RGBA pf img0 else img0"
  let ?s2 = "print_header (Path source_path) (Path output_dir) ?img (s\<lparr>files := f1\<rparr>)"
  have run: "resize_logo pf source_path output_dir s =
               emit_all pf ?img (Path source_path) (Path output_dir) ?s2"
    by (rule resize_logo_loaded[OF mk src dec])
  have h': "0 < height ?img" using h by (simp add: convert_RGBA_def)
  have nd': "\<forall>name \<in> set (map fst sizes @ [''favicon.ico'', ''og-image.png'']).
               files ?s2 (resolve pf (joinpath (Path output_dir) name)) \<noteq> Some Dir"
    using nd by simp
  obtain r s' where e: "emit_all pf ?img (Path source_path) (Path output_dir) ?s2 = (r, s')"
    by fastforce
  from emit_all_completes[OF h' nd', of "Path source_path"] e have r: "r = None" by simp
  note n = emit_all_None[OF e[unfolded r]]
  show ?thesis
    apply (rule exI[of _ s'])
    using run e r n(1) n(2) by simp
qed

subsection \<open>Evaluating the plain platform\<close>

lemmas plain_eval = plain_def plain_resolve_def joinpath_def Path_def is_absolute_def

lemma resolve_plain_out:
  "map (\<lambda>e. resolve (plain [''/'', ''w'']) (joinpath (Path ''out'') (fst e))) sizes =
     [[''/'', ''w'', ''out'', ''favicon-16x16.png''],
      [''/'', ''w'', ''out'', ''favicon-32x32.png''],
      [''/'', ''w'', ''out'', ''favicon-48x48.png''],
      [''/'', ''w'', ''out'', ''apple-touch-icon.png''],
      [''/'', ''w'', ''out'', ''logo-192.png''],
      [''/'', ''w'', ''out'', ''logo-512.png''],
      [''/'', ''w'', ''out'', ''logo-64.png'']]"
  by (simp add: sizes_def plain_eval)

lemma resolve_plain_more:
  "resolve (plain [''/'', ''w'']) (joinpath (Path ''out'') ''favicon.ico'') = [''/'', ''w'', ''out'', ''favicon.ico'']"
  "resolve (plain [''/'', ''w'']) (joinpath (Path ''out'') ''og-image.png'') = [''/'', ''w'', ''out'', ''og-image.png'']"
  "resolve (plain [''/'', ''w'']) (Path ''out'') = [''/'', ''w'', ''out'']"
  "resolve (plain [''/'', ''w'']) (Path ''logo.png'') = [''/'', ''w'', ''logo.png'']"
  "resolve (plain [''/'', ''w'']) (Path ''missing.png'') = [''/'', ''w'', ''missing.png'']"
  "resolve (plain [''/'', ''w'']) (Path ''out/og-image.png'') = [''/'', ''w'', ''out'', ''og-image.png'']"
  "resolve (plain [''/'', ''w'']) (Path ''out/favicon-16x16.png'') = [''/'', ''w'', ''out'', ''favicon-16x16.png'']"
  by (simp_all add: plain_eval)

lemma bare_fs_no_dir_in_out:
  "\<forall>e \<in> set sizes. files (start bare_fs)
      (resolve (plain [''/'', ''w'']) (joinpath (Path ''out'') (fst e))) \<noteq> Some Dir"
proof -
  have "\<forall>p \<in> set (map (\<lambda>e. resolve (plain [''/'', ''w'']) (joinpath (Path ''out'') (fst e))) sizes).
          files (start bare_fs) p \<noteq> Some Dir"
    unfolding resolve_plain_out by (simp add: start_def bare_fs_def)
  then show ?thesis by simp
qed

subsection \<open>The centring offset\<close>

text \<open>
  Claim C3. For every source image and every target box, the scaled image is pasted onto
  the transparent canvas at x = (box width - scaled width) div 2 and
  y = (box height - scaled height) div 2, with the division rounding down. So whenever the
  leftover of an axis is odd, the padding after the image (right, bottom) is one pixel
  more than the padding before it (left, top).
\<close>

theorem fit_center_offset:
  assumes "thumbnail pf img sz = Inr resized"
  shows "fit_center pf img sz =
           Inr (paste (Image_new RGBA sz (0, 0, 0, 0)) resized (center_offset sz resized)) \<and>
         fst (center_offset sz resized) = (int (fst sz) - int (width resized)) div 2 \<and>
         snd (center_offset sz resized) = (int (snd sz) - int (height resized)) div 2 \<and>
         (odd (int (fst sz) - int (width resized)) \<longrightarrow>
            int (fst sz) - (fst (center_offset sz resized) + int (width resized))
              = fst (center_offset sz resized) + 1) \<and>
         (odd (int (snd sz) - int (height resized)) \<longrightarrow>
            int (snd sz) - (snd (center_offset sz resized) + int (height resized))
              = snd (center_offset sz resized) + 1)"
proof -
  have "fit_center pf img sz =
           Inr (paste (Image_new RGBA sz (0, 0, 0, 0)) resized (center_offset sz resized))"
    using assms by (simp add: fit_center_def Let_def)
  moreover have pad: "\<And>t w::int. odd (t - w) \<Longrightarrow> t - ((t - w) div 2 + w) = (t - w) div 2 + 1"
    by presburger
  have "odd (int (fst sz) - int (width resized)) \<longrightarrow>
            int (fst sz) - (fst (center_offset sz resized) + int (width resized))
              = fst (center_offset sz resized) + 1"
    using pad[of "int (fst sz)" "int (width resized)"] by (simp only: center_offset_def fst_conv) blast
  moreover have "odd (int (snd sz) - int (height resized)) \<longrightarrow>
            int (snd sz) - (snd (center_offset sz resized) + int (height resized))
              = snd (center_offset sz resized) + 1"
    using pad[of "int (snd sz)" "int (height resized)"] by (simp only: center_offset_def snd_conv) blast
  moreover have "fst (center_offset sz resized) = (int (fst sz) - int (width resized)) div 2"
    "snd (center_offset sz resized) = (int (snd sz) - int (height resized)) div 2"
    by (simp_all only: center_offset_def fst_conv snd_conv)
  ultimately show ?thesis by blast
qed

text \<open>The theorem at a 3 by 2 source in the box 16 by 16: the leftover 13 is odd, the
  image sits at column 6 and 7 columns of padding follow it.\<close>

theorem fit_center_offset_witness:
  "thumbnail (plain [''/'', ''w'']) (black 3 2) (16, 16) = Inr (black 3 2) \<and>
   fit_center (plain [''/'', ''w'']) (black 3 2) (16, 16) =
     Inr (paste (Image_new RGBA (16, 16) (0, 0, 0, 0)) (black 3 2) (6, 7)) \<and>
   odd (int (fst (16::nat, 16::nat)) - int (width (black 3 2))) \<and>
   int (fst (16::nat, 16::nat)) - (fst (center_offset (16, 16) (black 3 2)) + int (width (black 3 2))) = 7"
proof -
  have t: "thumbnail (plain [''/'', ''w'']) (black 3 2) (16, 16) = Inr (black 3 2)"
    by (simp add: thumbnail_def preserve_aspect_ratio_def black_def)
  have c: "center_offset (16, 16) (black 3 2) = (6, 7)"
    by (simp add: center_offset_def black_def)
  have o: "odd (int (fst (16::nat, 16::nat)) - int (width (black 3 2)))"
    by (simp add: black_def)
  from fit_center_offset[OF t] t c o show ?thesis by simp
qed

subsection \<open>The sizes of the sized variants\<close>

text \<open>
  Claim C6. The loop over the table is the only place where a sized variant is written.
  Whatever the source image, and whether the loop runs to its end or stops at an exception,
  every file it writes is the PNG of a canvas whose width and height are exactly those of
  the file's entry in the table.
\<close>

theorem sized_variants_exact_size:
  assumes "emit_sized pf img source output sizes s = (r, s')"
  shows "\<exists>ws. written s' = written s @ ws \<and>
           (\<forall>w \<in> set ws. \<exists>filename sz canvas.
              (filename, sz) \<in> set sizes \<and>
              fst w = resolve pf (joinpath output filename) \<and>
              snd w = PNG canvas \<and> width canvas = fst sz \<and> height canvas = snd sz)"
proof -
  from emit_sized_trace[OF assms] obtain ws where
    ws: "written s' = written s @ ws" "list_all (sized_entry pf img source output sizes) ws"
    by blast
  have "\<forall>w \<in> set ws. \<exists>filename sz canvas.
              (filename, sz) \<in> set sizes \<and>
              fst w = resolve pf (joinpath output filename) \<and>
              snd w = PNG canvas \<and> width canvas = fst sz \<and> height canvas = snd sz"
  proof
    fix w assume "w \<in> set ws"
    with ws(2) have "sized_entry pf img source output sizes w" by (simp add: list_all_iff)
    then obtain filename sz canvas where
      e: "(filename, sz) \<in> set sizes" "fst w = resolve pf (joinpath output filename)"
         "snd w = PNG canvas" "fit_center pf img sz = Inr canvas"
      unfolding sized_entry_def by blast
    from fit_center_size[OF e(4)] e(1,2,3)
    show "\<exists>filename sz canvas.
              (filename, sz) \<in> set sizes \<and>
              fst w = resolve pf (joinpath output filename) \<and>
              snd w = PNG canvas \<and> width canvas = fst sz \<and> height canvas = snd sz"
      by blast
  qed
  with ws(1) show ?thesis by blast
qed

text \<open>The theorem at a 17 by 16 source: the loop runs to its end and writes the seven
  variants.\<close>

theorem sized_variants_exact_size_witness:
  "fst (emit_sized (plain [''/'', ''w'']) (black 17 16) (Path ''logo.png'') (Path ''out'') sizes
          (start bare_fs)) = None \<and>
   map fst (written (snd (emit_sized (plain [''/'', ''w'']) (black 17 16) (Path ''logo.png'')
          (Path ''out'') sizes (start bare_fs)))) =
     [[''/'', ''w'', ''out'', ''favicon-16x16.png''],
      [''/'', ''w'', ''out'', ''favicon-32x32.png''],
      [''/'', ''w'', ''out'', ''favicon-48x48.png''],
      [''/'', ''w'', ''out'', ''apple-touch-icon.png''],
      [''/'', ''w'', ''out'', ''logo-192.png''],
      [''/'', ''w'', ''out'', ''logo-512.png''],
      [''/'', ''w'', ''out'', ''logo-64.png'']] \<and>
   list_all (\<lambda>w. \<exists>filename sz canvas.
              (filename, sz) \<in> set sizes \<and>
              fst w = resolve (plain [''/'', ''w'']) (joinpath (Path ''out'') filename) \<and>
              snd w = PNG canvas \<and> width canvas = fst sz \<and> height canvas = snd sz)
     (written (snd (emit_sized (plain [''/'', ''w'']) (black 17 16) (Path ''logo.png'')
          (Path ''out'') sizes (start bare_fs))))"
proof -
  let ?P = "plain [''/'', ''w'']"
  let ?run = "emit_sized ?P (black 17 16) (Path ''logo.png'') (Path ''out'') sizes (start bare_fs)"
  have h: "0 < height (black 17 16)" by (simp add: black_def)
  have r: "fst ?run = None"
    by (rule emit_sized_completes[OF h sizes_positive bare_fs_no_dir_in_out])
  then have run: "?run = (None, snd ?run)" by (metis prod.collapse)
  have "map fst (written (snd ?run)) =
          map (\<lambda>e. resolve ?P (joinpath (Path ''out'') (fst e)))
            (filter (\<lambda>e. resolve ?P (joinpath (Path ''out'') (fst e)) \<noteq> resolve ?P (Path ''logo.png'')) sizes)"
    using emit_sized_paths[OF run] by (simp add: start_def)
  also have "filter (\<lambda>e. resolve ?P (joinpath (Path ''out'') (fst e)) \<noteq> resolve ?P (Path ''logo.png'')) sizes = sizes"
    by (simp add: sizes_def plain_eval)
  finally have p: "map fst (written (snd ?run)) =
     [[''/'', ''w'', ''out'', ''favicon-16x16.png''],
      [''/'', ''w'', ''out'', ''favicon-32x32.png''],
      [''/'', ''w'', ''out'', ''favicon-48x48.png''],
      [''/'', ''w'', ''out'', ''apple-touch-icon.png''],
      [''/'', ''w'', ''out'', ''logo-192.png''],
      [''/'', ''w'', ''out'', ''logo-512.png''],
      [''/'', ''w'', ''out'', ''logo-64.png'']]"
    unfolding resolve_plain_out .
  from sized_variants_exact_size[OF run] have
    "list_all (\<lambda>w. \<exists>filename sz canvas.
              (filename, sz) \<in> set sizes \<and>
              fst w = resolve ?P (joinpath (Path ''out'') filename) \<and>
              snd w = PNG canvas \<and> width canvas = fst sz \<and> height canvas = snd sz)
       (written (snd ?run))"
    by (auto simp: list_all_iff start_def)
  with r p show ?thesis by blast
qed

subsection \<open>What the icon file holds\<close>

text \<open>
  Claim C7, on the code. Whenever the icon step runs to its end, the file it writes at
  \<open>favicon.ico\<close> holds exactly one image: the 16 by 16 canvas of an independent
  fit-and-centre run on the decoded source. The 32 by 32 and the 48 by 48 canvases are
  computed and handed over as \<open>append_images\<close>, but the image being saved is the
  16 by 16 canvas, and the ICO writer drops every requested size that is bigger than the
  image being saved.
\<close>

theorem favicon_ico_single_frame:
  assumes "emit_favicon pf img output s = (None, s')"
  shows "\<exists>c16. fit_center pf img (16, 16) = Inr c16 \<and> width c16 = 16 \<and> height c16 = 16 \<and>
           written s' = written s @ [(resolve pf (joinpath output ''favicon.ico''), ICO [c16])]"
proof -
  from emit_favicon_None[OF assms] obtain c16 where
    c: "fit_center pf img (16, 16) = Inr c16"
    and s': "s' = print ''  Created: favicon.ico (16x16, 32x32, 48x48)''
                  (s\<lparr>files := (files s)(resolve pf (joinpath output ''favicon.ico'') \<mapsto> File (ICO [c16])),
                     written := written s @ [(resolve pf (joinpath output ''favicon.ico''), ICO [c16])]\<rparr>)"
    by blast
  from fit_center_size[OF c] c s' show ?thesis by simp
qed

text \<open>The theorem at a 17 by 16 source: the step runs to its end and the trace holds one
  write, of an icon file with one 16 by 16 frame.\<close>

theorem favicon_ico_single_frame_witness:
  "fst (emit_favicon (plain [''/'', ''w'']) (black 17 16) (Path ''out'') (start bare_fs)) = None \<and>
   (\<exists>c16. written (snd (emit_favicon (plain [''/'', ''w'']) (black 17 16) (Path ''out'') (start bare_fs)))
            = [([''/'', ''w'', ''out'', ''favicon.ico''], ICO [c16])] \<and>
          width c16 = 16 \<and> height c16 = 16)"
proof -
  let ?P = "plain [''/'', ''w'']"
  let ?run = "emit_favicon ?P (black 17 16) (Path ''out'') (start bare_fs)"
  have h: "0 < height (black 17 16)" by (simp add: black_def)
  have nd: "files (start bare_fs) (resolve ?P (joinpath (Path ''out'') ''favicon.ico'')) \<noteq> Some Dir"
    unfolding resolve_plain_more by (simp add: start_def bare_fs_def)
  have r: "fst ?run = None" by (rule emit_favicon_completes[OF h nd])
  then have run: "?run = (None, snd ?run)" by (metis prod.collapse)
  from favicon_ico_single_frame[OF run] r show ?thesis
    unfolding resolve_plain_more by (auto simp: start_def)
qed

subsection \<open>The banner file\<close>

text \<open>
  Claim C8. For every source image, whenever the banner step runs to its end, the file it
  writes at \<open>og-image.png\<close> is the PNG of an image that is exactly 1200 by 630, has
  the mode \<open>RGB\<close> (no alpha band), and whose four corner pixels are white.
\<close>

theorem og_image_is_opaque_banner:
  assumes "emit_og pf img output s = (None, s')"
  shows "\<exists>im. written s' = written s @ [(resolve pf (joinpath output ''og-image.png''), PNG im)] \<and>
           width im = 1200 \<and> height im = 630 \<and> mode im = RGB \<and>
           px im 0 0 = (255, 255, 255, 255) \<and> px im 1199 0 = (255, 255, 255, 255) \<and>
           px im 0 629 = (255, 255, 255, 255) \<and> px im 1199 629 = (255, 255, 255, 255)"
proof -
  from emit_og_None[OF assms] obtain og where
    og: "og_canvas pf img = Inr og"
    and s': "s' = print (created_line ''og-image.png'' og_size)
                  (s\<lparr>files := (files s)(resolve pf (joinpath output ''og-image.png'') \<mapsto> File (PNG (convert_RGB og))),
                     written := written s @ [(resolve pf (joinpath output ''og-image.png''), PNG (convert_RGB og))]\<rparr>)"
    by blast
  note p = og_canvas_Inr[OF og]
  have "width (convert_RGB og) = 1200 \<and> height (convert_RGB og) = 630 \<and> mode (convert_RGB og) = RGB \<and>
        px (convert_RGB og) 0 0 = (255, 255, 255, 255) \<and> px (convert_RGB og) 1199 0 = (255, 255, 255, 255) \<and>
        px (convert_RGB og) 0 629 = (255, 255, 255, 255) \<and> px (convert_RGB og) 1199 629 = (255, 255, 255, 255)"
    using p by (simp add: convert_RGB_def)
  with s' show ?thesis by simp
qed

text \<open>The theorem at a 17 by 16 source: the step runs to its end and writes the banner.\<close>

theorem og_image_is_opaque_banner_witness:
  "fst (emit_og (plain [''/'', ''w'']) (black 17 16) (Path ''out'') (start bare_fs)) = None \<and>
   (\<exists>im. written (snd (emit_og (plain [''/'', ''w'']) (black 17 16) (Path ''out'') (start bare_fs)))
            = [([''/'', ''w'', ''out'', ''og-image.png''], PNG im)] \<and>
          width im = 1200 \<and> height im = 630 \<and> mode im = RGB \<and>
          px im 0 0 = (255, 255, 255, 255) \<and> px im 1199 629 = (255, 255, 255, 255))"
proof -
  let ?P = "plain [''/'', ''w'']"
  let ?run = "emit_og ?P (black 17 16) (Path ''out'') (start bare_fs)"
  have h: "0 < height (black 17 16)" by (simp add: black_def)
  have nd: "files (start bare_fs) (resolve ?P (joinpath (Path ''out'') ''og-image.png'')) \<noteq> Some Dir"
    unfolding resolve_plain_more by (simp add: start_def bare_fs_def)
  have r: "fst ?run = None" by (rule emit_og_completes[OF h nd])
  then have run: "?run = (None, snd ?run)" by (metis prod.collapse)
  from og_image_is_opaque_banner[OF run] r show ?thesis
    unfolding resolve_plain_more by (auto simp: start_def)
qed

subsection \<open>The files of a run\<close>

lemma map_filter_fst:
  "map (\<lambda>e. g (fst e)) (filter (\<lambda>e. P (fst e)) xs) = map g (filter P (map fst xs))"
  by (induction xs) auto

lemma sized_names:
  "map fst sizes = [''favicon-16x16.png'', ''favicon-32x32.png'', ''favicon-48x48.png'',
     ''apple-touch-icon.png'', ''logo-192.png'', ''logo-512.png'', ''logo-64.png'']"
  by (simp add: sizes_def)

lemma resize_logo_outcome:
  assumes "mkdir_parents (files s) (resolve pf (Path output_dir)) = Inr f1"
    and "f1 (resolve pf (Path source_path)) = Some (File c)"
    and "decode pf c = Some img0"
    and "0 < height img0"
    and "\<forall>name \<in> set [''favicon-16x16.png'', ''favicon-32x32.png'', ''favicon-48x48.png'',
             ''apple-touch-icon.png'', ''logo-192.png'', ''logo-512.png'', ''logo-64.png'',
             ''favicon.ico'', ''og-image.png''].
           f1 (resolve pf (joinpath (Path output_dir) name)) \<noteq> Some Dir"
  shows "\<exists>s'. resize_logo pf source_path output_dir s = (None, s') \<and>
           map fst (written s') = map fst (written s) @
             map (\<lambda>name. resolve pf (joinpath (Path output_dir) name))
               (filter (\<lambda>name. resolve pf (joinpath (Path output_dir) name)
                                 \<noteq> resolve pf (Path source_path))
                  [''favicon-16x16.png'', ''favicon-32x32.png'', ''favicon-48x48.png'',
                   ''apple-touch-icon.png'', ''logo-192.png'', ''logo-512.png'', ''logo-64.png'']) @
             [resolve pf (joinpath (Path output_dir) ''favicon.ico''),
              resolve pf (joinpath (Path output_dir) ''og-image.png'')] \<and>
           (\<forall>filename sz. (filename, sz) \<in> set sizes \<longrightarrow>
              resolve pf (joinpath (Path output_dir) filename) = resolve pf (Path source_path) \<longrightarrow>
              skipped_line filename \<in> set (stdout s'))"
proof -
  have nd: "\<forall>name \<in> set (map fst sizes @ [''favicon.ico'', ''og-image.png'']).
               f1 (resolve pf (joinpath (Path output_dir) name)) \<noteq> Some Dir"
    using assms(5) unfolding sized_names by simp
  have m: "map (\<lambda>e. resolve pf (joinpath (Path output_dir) (fst e)))
               (filter (\<lambda>e. resolve pf (joinpath (Path output_dir) (fst e))
                              \<noteq> resolve pf (Path source_path)) sizes) =
        map (\<lambda>name. resolve pf (joinpath (Path output_dir) name))
               (filter (\<lambda>name. resolve pf (joinpath (Path output_dir) name)
                                 \<noteq> resolve pf (Path source_path)) (map fst sizes))"
    by (rule map_filter_fst)
  show ?thesis
    by (rule resize_logo_completes[OF assms(1,2,3,4) nd, unfolded m sized_names])
qed



lemma mkdir_out_out_fs:
  "mkdir_parents (out_fs name) [''/'', ''w'', ''out''] = Inr (out_fs name)"
  by (subst mkdir_parents.simps) (simp add: out_fs_def bare_fs_def)

lemma out_names_resolved:
  "map (\<lambda>name. resolve (plain [''/'', ''w'']) (joinpath (Path ''out'') name))
     [''favicon-16x16.png'', ''favicon-32x32.png'', ''favicon-48x48.png'',
      ''apple-touch-icon.png'', ''logo-192.png'', ''logo-512.png'', ''logo-64.png'',
      ''favicon.ico'', ''og-image.png''] =
     [[''/'', ''w'', ''out'', ''favicon-16x16.png''],
      [''/'', ''w'', ''out'', ''favicon-32x32.png''],
      [''/'', ''w'', ''out'', ''favicon-48x48.png''],
      [''/'', ''w'', ''out'', ''apple-touch-icon.png''],
      [''/'', ''w'', ''out'', ''logo-192.png''],
      [''/'', ''w'', ''out'', ''logo-512.png''],
      [''/'', ''w'', ''out'', ''logo-64.png''],
      [''/'', ''w'', ''out'', ''favicon.ico''],
      [''/'', ''w'', ''out'', ''og-image.png'']]"
  by (simp add: plain_eval)

lemma sized_names_resolved:
  "map (\<lambda>name. resolve (plain [''/'', ''w'']) (joinpath (Path ''out'') name))
     [''favicon-16x16.png'', ''favicon-32x32.png'', ''favicon-48x48.png'',
      ''apple-touch-icon.png'', ''logo-192.png'', ''logo-512.png'', ''logo-64.png''] =
     [[''/'', ''w'', ''out'', ''favicon-16x16.png''],
      [''/'', ''w'', ''out'', ''favicon-32x32.png''],
      [''/'', ''w'', ''out'', ''favicon-48x48.png''],
      [''/'', ''w'', ''out'', ''apple-touch-icon.png''],
      [''/'', ''w'', ''out'', ''logo-192.png''],
      [''/'', ''w'', ''out'', ''logo-512.png''],
      [''/'', ''w'', ''out'', ''logo-64.png'']]"
  by (simp add: plain_eval)


lemma written_start: "written (start f) = []"
  by (simp add: start_def)

lemma no_dir_by_paths:
  assumes "\<forall>p \<in> set (map g names). f p \<noteq> Some Dir"
  shows "\<forall>name \<in> set names. f (g name) \<noteq> Some Dir"
  using assms by simp


subsection \<open>The self-overwrite guard\<close>

lemma main_three_args:
  "main pf [prog, source_path, output_dir] s = resize_logo pf source_path output_dir s"
  by (simp add: main_def)





lemma plain_decodes_png: "decode (plain cwd) (PNG im) = Some im"
  by (simp add: plain_def plain_decode_def)

lemma black_height: "0 < height (black 17 16)"
  by (simp add: black_def)

lemma out_fs_no_dir:
  "\<forall>name \<in> set [''favicon-16x16.png'', ''favicon-32x32.png'', ''favicon-48x48.png'',
             ''apple-touch-icon.png'', ''logo-192.png'', ''logo-512.png'', ''logo-64.png'',
             ''favicon.ico'', ''og-image.png''].
     (out_fs src) (resolve (plain [''/'', ''w'']) (joinpath (Path ''out'') name)) \<noteq> Some Dir"
  by (rule no_dir_by_paths, unfold out_names_resolved) (simp add: out_fs_def bare_fs_def)


lemma pair_fst_snd: "x = (a, b) \<Longrightarrow> fst x = a \<and> snd x = b"
  by simp

text \<open>
  Claim C1, on the code. The guard of lines 70 to 73 stands in the loop over the sized
  variants only; \<open>favicon.ico\<close> and \<open>og-image.png\<close> are saved without it. With
  \<open>out/og-image.png\<close> as the source and \<open>out\<close> as the output directory, the
  output path of the banner resolves to the path of the source, the run ends normally, and
  the last file it writes is the source file itself.
\<close>

theorem og_image_overwrites_source:
  "resolve (plain [''/'', ''w'']) (joinpath (Path ''out'') ''og-image.png'')
     = resolve (plain [''/'', ''w'']) (Path ''out/og-image.png'') \<and>
   fst (main (plain [''/'', ''w'']) [''resize-logo.py'', ''out/og-image.png'', ''out'']
          (start (out_fs ''og-image.png''))) = None \<and>
   map fst (written (snd (main (plain [''/'', ''w''])
          [''resize-logo.py'', ''out/og-image.png'', ''out''] (start (out_fs ''og-image.png''))))) =
     [[''/'', ''w'', ''out'', ''favicon-16x16.png''],
      [''/'', ''w'', ''out'', ''favicon-32x32.png''],
      [''/'', ''w'', ''out'', ''favicon-48x48.png''],
      [''/'', ''w'', ''out'', ''apple-touch-icon.png''],
      [''/'', ''w'', ''out'', ''logo-192.png''],
      [''/'', ''w'', ''out'', ''logo-512.png''],
      [''/'', ''w'', ''out'', ''logo-64.png''],
      [''/'', ''w'', ''out'', ''favicon.ico''],
      [''/'', ''w'', ''out'', ''og-image.png'']]"
proof -
  let ?P = "plain [''/'', ''w'']"
  let ?f = "out_fs ''og-image.png''"
  let ?run = "main ?P [''resize-logo.py'', ''out/og-image.png'', ''out''] (start ?f)"
  have eq: "resolve ?P (joinpath (Path ''out'') ''og-image.png'') = resolve ?P (Path ''out/og-image.png'')"
    unfolding resolve_plain_more by (rule refl)
  have mk: "mkdir_parents (files (start ?f)) (resolve ?P (Path ''out'')) = Inr ?f"
    unfolding resolve_plain_more using mkdir_out_out_fs[of "''og-image.png''"]
    by (simp add: start_def)
  have src: "?f (resolve ?P (Path ''out/og-image.png'')) = Some (File (PNG (black 17 16)))"
    unfolding resolve_plain_more by (simp add: out_fs_def)
  have keep: "filter (\<lambda>name. resolve ?P (joinpath (Path ''out'') name)
                    \<noteq> [''/'', ''w'', ''out'', ''og-image.png''])
     [''favicon-16x16.png'', ''favicon-32x32.png'', ''favicon-48x48.png'',
      ''apple-touch-icon.png'', ''logo-192.png'', ''logo-512.png'', ''logo-64.png'']
   = [''favicon-16x16.png'', ''favicon-32x32.png'', ''favicon-48x48.png'',
      ''apple-touch-icon.png'', ''logo-192.png'', ''logo-512.png'', ''logo-64.png'']"
    by (simp add: plain_eval)
  have "\<exists>s'. ?run = (None, s') \<and>
      map fst (written s') =
        [[''/'', ''w'', ''out'', ''favicon-16x16.png''],
         [''/'', ''w'', ''out'', ''favicon-32x32.png''],
         [''/'', ''w'', ''out'', ''favicon-48x48.png''],
         [''/'', ''w'', ''out'', ''apple-touch-icon.png''],
         [''/'', ''w'', ''out'', ''logo-192.png''],
         [''/'', ''w'', ''out'', ''logo-512.png''],
         [''/'', ''w'', ''out'', ''logo-64.png''],
         [''/'', ''w'', ''out'', ''favicon.ico''],
         [''/'', ''w'', ''out'', ''og-image.png'']]"
    using resize_logo_outcome[OF mk src plain_decodes_png black_height out_fs_no_dir]
    unfolding main_three_args written_start resolve_plain_more keep sized_names_resolved
    by (elim exE conjE, intro exI conjI) (assumption, simp only: list.map append.simps)
  then obtain s' where r: "?run = (None, s')" and w: "map fst (written s') =
        [[''/'', ''w'', ''out'', ''favicon-16x16.png''],
         [''/'', ''w'', ''out'', ''favicon-32x32.png''],
         [''/'', ''w'', ''out'', ''favicon-48x48.png''],
         [''/'', ''w'', ''out'', ''apple-touch-icon.png''],
         [''/'', ''w'', ''out'', ''logo-192.png''],
         [''/'', ''w'', ''out'', ''logo-512.png''],
         [''/'', ''w'', ''out'', ''logo-64.png''],
         [''/'', ''w'', ''out'', ''favicon.ico''],
         [''/'', ''w'', ''out'', ''og-image.png'']]"
    by (elim exE conjE)
  from pair_fst_snd[OF r] have f: "fst ?run = None" and s: "snd ?run = s'"
    by (rule conjunct1, rule conjunct2)
  show ?thesis unfolding s by (intro conjI eq f w)
qed

subsection \<open>A source that is not there\<close>







subsection \<open>Command-line arguments\<close>

text \<open>
  Claim C10. Every command-line argument after the source path and the output directory
  is ignored: the run, with its outcome and its final state, is the run of the invocation
  with the first two arguments alone.
\<close>

theorem main_ignores_extra_arguments:
  "main pf (prog # source_path # output_dir # extra) s = main pf [prog, source_path, output_dir] s"
  by (simp add: main_def)

end
